theory Spec2Isabelle
  imports Main "HOL-Library.Char_ord" "HOL-Library.List_Lexorder"
begin

section \<open>Strings and the fragment of regular expressions that \<open>matchesPattern\<close> relies on\<close>

text \<open>
  A JavaScript string is a sequence of code units. The model uses \<^typ>\<open>string\<close>, so
  names, patterns and paths range over the code units \<open>0x00\<close> to \<open>0xFF\<close>; this covers
  every ASCII pattern and path. The only line terminators in that range are LF and CR.
\<close>

definition lineTerminator :: "char \<Rightarrow> bool" where
  "lineTerminator c = (c = CHR 0x0A \<or> c = CHR 0x0D)"

text \<open>
  \<open>new RegExp(source)\<close> and \<open>regex.test(name)\<close> belong to the language runtime, not to the
  repository. They are modelled for the fragment of the pattern language that has a flat
  structure: the assertions \<open>^\<close> and \<open>$\<close>, the wildcard \<open>.\<close>, ordinary characters, and the
  greedy quantifiers \<open>*\<close> and \<open>+\<close> applied to a single character or to \<open>.\<close>. A source that
  uses any other syntax character (backslash, \<open>?\<close>, parentheses, brackets, braces, \<open>|\<close>) is
  outside the fragment and \<open>RegExp\<close> gives \<open>None\<close> for it: the model says nothing about
  such a source. Inside the fragment the constructor either returns a compiled expression
  or throws a \<open>SyntaxError\<close> (a quantifier with nothing to repeat).
\<close>

datatype js_error = SyntaxError

datatype atom = Lit char | Dot

datatype quantifier = ExactlyOne | ZeroOrMore | OneOrMore

datatype piece = Bol | Eol | Rep atom quantifier

type_synonym regexp = "piece list"

definition outsideFragment :: "char \<Rightarrow> bool" where
  "outsideFragment c = (c \<in> set [CHR 0x5C, CHR ''?'', CHR ''('', CHR '')'', CHR ''['', CHR '']'',
                                  CHR ''{'', CHR ''}'', CHR ''|''])"

definition emit :: "piece \<Rightarrow> (js_error + regexp) option \<Rightarrow> (js_error + regexp) option" where
  "emit p r = (case r of None \<Rightarrow> None
                | Some (Inl e) \<Rightarrow> Some (Inl e)
                | Some (Inr ps) \<Rightarrow> Some (Inr (p # ps)))"

fun RegExp :: "string \<Rightarrow> (js_error + regexp) option" where
  "RegExp [] = Some (Inr [])"
| "RegExp (c # cs) =
     (if c = CHR ''^'' then emit Bol (RegExp cs)
      else if c = CHR ''$'' then emit Eol (RegExp cs)
      else if c = CHR ''*'' \<or> c = CHR ''+'' then Some (Inl SyntaxError)
      else if outsideFragment c then None
      else (let a = (if c = CHR ''.'' then Dot else Lit c) in
            case cs of
              [] \<Rightarrow> Some (Inr [Rep a ExactlyOne])
            | q # rest \<Rightarrow>
                if q = CHR ''*'' then emit (Rep a ZeroOrMore) (RegExp rest)
                else if q = CHR ''+'' then emit (Rep a OneOrMore) (RegExp rest)
                else emit (Rep a ExactlyOne) (RegExp cs)))"

fun atomMatches :: "atom \<Rightarrow> char \<Rightarrow> bool" where
  "atomMatches (Lit l) c = (c = l)"
| "atomMatches Dot c = (\<not> lineTerminator c)"

text \<open>
  \<open>matchHere ps atStart s\<close>: the pieces \<open>ps\<close> match a prefix of the remaining input \<open>s\<close>;
  \<open>atStart\<close> tells whether \<open>s\<close> is the whole input (no flag \<open>m\<close>: \<open>^\<close> holds only there,
  \<open>$\<close> only at the very end). The result is a truth value, so the order in which a greedy
  quantifier tries its repetitions does not show.
\<close>

fun matchHere :: "regexp \<Rightarrow> bool \<Rightarrow> string \<Rightarrow> bool" where
  "matchHere [] atStart s = True"
| "matchHere (Bol # ps) atStart s = (atStart \<and> matchHere ps atStart s)"
| "matchHere (Eol # ps) atStart s = (s = [] \<and> matchHere ps atStart s)"
| "matchHere (Rep a ExactlyOne # ps) atStart [] = False"
| "matchHere (Rep a ExactlyOne # ps) atStart (c # cs) = (atomMatches a c \<and> matchHere ps False cs)"
| "matchHere (Rep a ZeroOrMore # ps) atStart [] = matchHere ps atStart []"
| "matchHere (Rep a ZeroOrMore # ps) atStart (c # cs) =
     ((atomMatches a c \<and> matchHere (Rep a ZeroOrMore # ps) False cs) \<or> matchHere ps atStart (c # cs))"
| "matchHere (Rep a OneOrMore # ps) atStart [] = False"
| "matchHere (Rep a OneOrMore # ps) atStart (c # cs) =
     (atomMatches a c \<and> matchHere (Rep a ZeroOrMore # ps) False cs)"

text \<open>\<open>regex.test(name)\<close> without the flags \<open>g\<close> and \<open>y\<close>: a match may start at any index.\<close>

fun testFrom :: "regexp \<Rightarrow> bool \<Rightarrow> string \<Rightarrow> bool" where
  "testFrom r atStart [] = matchHere r atStart []"
| "testFrom r atStart (c # cs) = (matchHere r atStart (c # cs) \<or> testFrom r False cs)"

definition test :: "regexp \<Rightarrow> string \<Rightarrow> bool" where
  "test r name = testFrom r True name"

section \<open>fileUtils: \<open>matchesPattern\<close>\<close>

text \<open>\<open>s.replace(/c/g, replacement)\<close> for a single character \<open>c\<close>.\<close>

definition replaceAll :: "char \<Rightarrow> string \<Rightarrow> string \<Rightarrow> string" where
  "replaceAll c replacement s = concat (map (\<lambda>x. if x = c then replacement else [x]) s)"

definition matchesPattern :: "string \<Rightarrow> string \<Rightarrow> (js_error + bool) option" where
  "matchesPattern name pattern =
     (let regexPattern = replaceAll (CHR ''?'') ''.'' (replaceAll (CHR ''*'') ''.*'' pattern) in
      case RegExp (''^'' @ regexPattern @ ''$'') of
        None \<Rightarrow> None
      | Some (Inl e) \<Rightarrow> Some (Inl e)
      | Some (Inr regex) \<Rightarrow> Some (Inr (test regex name)))"

section \<open>fileUtils: the traversals\<close>

text \<open>
  The directory tree below the working directory, as \<open>fs.readdirSync(dir, {withFileTypes:
  true})\<close> shows it: an entry for which \<open>isDirectory()\<close> is false, a directory whose
  listing throws, or a directory with its entries in listing order.
\<close>

datatype node = NonDirectory | Unreadable | Directory "(string \<times> node) list"

fun Dirent_isDirectory :: "node \<Rightarrow> bool" where
  "Dirent_isDirectory NonDirectory = False"
| "Dirent_isDirectory Unreadable = True"
| "Dirent_isDirectory (Directory entries) = True"

text \<open>
  A number as \<open>parseInt\<close> produces it, and the comparison \<open>currentDepth > maxDepth\<close>,
  which is false when \<open>maxDepth\<close> is \<open>NaN\<close>.
\<close>

datatype number = NaN | Num int

fun exceeds :: "nat \<Rightarrow> number \<Rightarrow> bool" where
  "exceeds currentDepth NaN = False"
| "exceeds currentDepth (Num maxDepth) = (int currentDepth > maxDepth)"

text \<open>
  \<open>path.relative(process.cwd(), path.join(dir, entry.name))\<close> for a directory \<open>dir\<close> below
  the working directory, whose own relative path is \<open>rel\<close> (empty for the working
  directory itself).
\<close>

definition relativePath :: "string \<Rightarrow> string \<Rightarrow> string" where
  "relativePath rel name = (if rel = [] then name else rel @ ''/'' @ name)"

text \<open>
  \<open>searchDir\<close> of \<open>findDirectories\<close>. The result lists what the call pushes onto
  \<open>directories\<close>, in order. An exception of \<open>matchesPattern\<close> is caught by the \<open>try\<close> of
  the call that runs the loop: the loop ends there and the paths pushed so far stay.
  \<open>None\<close> only when the pattern is outside the modelled fragment.
\<close>

fun findDirectories_searchDir :: "string \<Rightarrow> number option \<Rightarrow> string \<Rightarrow> node \<Rightarrow> nat \<Rightarrow> string list option"
and findDirectories_entries :: "string \<Rightarrow> number option \<Rightarrow> string \<Rightarrow> (string \<times> node) list \<Rightarrow> nat \<Rightarrow> string list option"
where
  "findDirectories_searchDir pattern maxDepth rel (Directory entries) currentDepth =
     (if maxDepth \<noteq> None \<and> exceeds currentDepth (the maxDepth) then Some []
      else findDirectories_entries pattern maxDepth rel entries currentDepth)"
| "findDirectories_searchDir pattern maxDepth rel Unreadable currentDepth = Some []"
| "findDirectories_searchDir pattern maxDepth rel NonDirectory currentDepth = Some []"
| "findDirectories_entries pattern maxDepth rel [] currentDepth = Some []"
| "findDirectories_entries pattern maxDepth rel ((name, entry) # entries) currentDepth =
     (if Dirent_isDirectory entry then
        (case matchesPattern name pattern of
           None \<Rightarrow> None
         | Some (Inl e) \<Rightarrow> Some []
         | Some (Inr matches) \<Rightarrow>
             (case findDirectories_searchDir pattern maxDepth (relativePath rel name) entry
                     (currentDepth + 1) of
                None \<Rightarrow> None
              | Some below \<Rightarrow>
                  (case findDirectories_entries pattern maxDepth rel entries currentDepth of
                     None \<Rightarrow> None
                   | Some others \<Rightarrow>
                       Some ((if matches then [relativePath rel name] else []) @ below @ others))))
      else findDirectories_entries pattern maxDepth rel entries currentDepth)"

definition findDirectories :: "string \<Rightarrow> number option \<Rightarrow> node \<Rightarrow> string list option" where
  "findDirectories pattern maxDepth cwd = findDirectories_searchDir pattern maxDepth [] cwd 0"

text \<open>\<open>searchDir\<close> of \<open>findItems\<close>: every entry is tested, directories are descended into.\<close>

fun findItems_searchDir :: "string \<Rightarrow> number option \<Rightarrow> string \<Rightarrow> node \<Rightarrow> nat \<Rightarrow> string list option"
and findItems_entries :: "string \<Rightarrow> number option \<Rightarrow> string \<Rightarrow> (string \<times> node) list \<Rightarrow> nat \<Rightarrow> string list option"
where
  "findItems_searchDir pattern maxDepth rel (Directory entries) currentDepth =
     (if maxDepth \<noteq> None \<and> exceeds currentDepth (the maxDepth) then Some []
      else findItems_entries pattern maxDepth rel entries currentDepth)"
| "findItems_searchDir pattern maxDepth rel Unreadable currentDepth = Some []"
| "findItems_searchDir pattern maxDepth rel NonDirectory currentDepth = Some []"
| "findItems_entries pattern maxDepth rel [] currentDepth = Some []"
| "findItems_entries pattern maxDepth rel ((name, entry) # entries) currentDepth =
     (case matchesPattern name pattern of
        None \<Rightarrow> None
      | Some (Inl e) \<Rightarrow> Some []
      | Some (Inr matches) \<Rightarrow>
          (case (if Dirent_isDirectory entry
                 then findItems_searchDir pattern maxDepth (relativePath rel name) entry
                        (currentDepth + 1)
                 else Some []) of
             None \<Rightarrow> None
           | Some below \<Rightarrow>
               (case findItems_entries pattern maxDepth rel entries currentDepth of
                  None \<Rightarrow> None
                | Some others \<Rightarrow>
                    Some ((if matches then [relativePath rel name] else []) @ below @ others))))"

definition findItems :: "string \<Rightarrow> number option \<Rightarrow> node \<Rightarrow> string list option" where
  "findItems pattern maxDepth cwd = findItems_searchDir pattern maxDepth [] cwd 0"

section \<open>fileUtils: \<open>shouldExclude\<close>\<close>

text \<open>\<open>s.startsWith(t)\<close> and \<open>s.includes(t)\<close>: \<open>t\<close> occurs in \<open>s\<close> at some index.\<close>

fun startsWith :: "string \<Rightarrow> string \<Rightarrow> bool" where
  "startsWith s [] = True"
| "startsWith [] (t # ts) = False"
| "startsWith (c # cs) (t # ts) = (c = t \<and> startsWith cs ts)"

fun includes_str :: "string \<Rightarrow> string \<Rightarrow> bool" where
  "includes_str [] t = (t = [])"
| "includes_str (c # cs) t = (startsWith (c # cs) t \<or> includes_str cs t)"

text \<open>
  \<open>path.basename(p)\<close> on POSIX: trailing slashes are dropped, and what follows the last
  remaining slash is returned (the empty string when nothing remains).
\<close>

definition basename :: "string \<Rightarrow> string" where
  "basename p = rev (takeWhile (\<lambda>c. c \<noteq> CHR ''/'') (dropWhile (\<lambda>c. c = CHR ''/'') (rev p)))"

fun shouldExclude :: "string \<Rightarrow> string list \<Rightarrow> bool" where
  "shouldExclude filePath [] = False"
| "shouldExclude filePath (pattern # excludePatterns) =
     (if includes_str filePath pattern \<or> basename filePath = pattern then True
      else shouldExclude filePath excludePatterns)"

text \<open>
  The exclusion rule in the words of the specification: some exclusion pattern is a
  literal substring of the path, or equals the final path segment.
\<close>

definition isExcluded_spec :: "string \<Rightarrow> string list \<Rightarrow> bool" where
  "isExcluded_spec path exclusions =
     (\<exists>pattern \<in> set exclusions.
        (\<exists>before after. path = before @ pattern @ after) \<or> basename path = pattern)"

section \<open>The operating system, the configuration and the engine state\<close>

text \<open>
  What the program asks of its environment is a parameter of the model, so that every
  theorem holds whatever the file system and the \<open>glob\<close> package do:
  \<^item> \<open>readdirTree\<close>: the tree that \<open>fs.readdirSync\<close> shows below the working directory;
  \<^item> \<open>glob\<close>: the paths that \<open>glob(pattern, {cwd, absolute: false, nodir: true, maxDepth})\<close>
    resolves to, relative to the working directory (so that \<open>findFiles\<close> maps each to
    itself), or \<open>None\<close> when the promise rejects;
  \<^item> \<open>statSync\<close>: the kind of the entry a path resolves to, \<open>None\<close> when the call throws;
  \<^item> \<open>rmSync\<close> (with \<open>recursive\<close> and \<open>force\<close>) and \<open>unlinkSync\<close>: the file system left
    behind, and whether the call returned (\<open>True\<close>) or threw (\<open>False\<close>).
\<close>

datatype stat = IsFile | IsDirectory | IsOther

record 'fs os =
  readdirTree :: "'fs \<Rightarrow> node"
  glob :: "'fs \<Rightarrow> string \<Rightarrow> number option \<Rightarrow> string list option"
  statSync :: "'fs \<Rightarrow> string \<Rightarrow> stat option"
  rmSync :: "'fs \<Rightarrow> string \<Rightarrow> bool \<times> 'fs"
  unlinkSync :: "'fs \<Rightarrow> string \<Rightarrow> bool \<times> 'fs"

datatype output_format = Plain | Json

record config =
  dryRun :: bool
  interactive :: bool
  force :: bool
  preview :: bool
  logFile :: "string option"
  outputFormat :: output_format
  maxDepth :: "number option"
  filesPattern :: "string option"
  foldersPattern :: "string option"
  typesPattern :: "string option"
  excludePatterns :: "string list"

datatype level = INFO | WARNING | ERROR

text \<open>
  What the run writes: a call of \<open>logger.log\<close>, a line of \<open>console.log\<close> or
  \<open>console.error\<close>, the JSON documents of the preview and of the summary (kept as their
  content), and a question put to the operator.
\<close>

datatype event =
    Log level string
  | ConsoleLog string
  | ConsoleError string
  | PreviewJson "string list"
  | SummaryJson nat nat nat bool "string list option"
  | Question string

datatype syscall = RmSync string | UnlinkSync string

text \<open>
  The three arrays of \<open>DeletionEngine\<close>, and the world the engine acts on: the file
  system, the lines the operator will type, what has been written, and the removals
  requested of the file system so far.
\<close>

record 'fs state =
  itemsToDelete :: "string list"
  deletedItems :: "string list"
  failedDeletions :: "string list"
  disk :: 'fs
  stdin :: "string list"
  out :: "event list"
  calls :: "syscall list"

section \<open>DeletionEngine: selection\<close>

definition findFiles :: "'fs os \<Rightarrow> 'fs \<Rightarrow> string \<Rightarrow> number option \<Rightarrow> string list" where
  "findFiles os d pattern depth =
     (case glob os d pattern depth of None \<Rightarrow> [] | Some files \<Rightarrow> files)"

text \<open>An optional string in a condition: undefined and the empty string are falsy.\<close>

definition truthy :: "string option \<Rightarrow> bool" where
  "truthy s = (s \<noteq> None \<and> s \<noteq> Some [])"

text \<open>\<open>[...new Set(allItems)]\<close>: the first occurrence of each path, in order.\<close>

definition spreadSet :: "string list \<Rightarrow> string list" where
  "spreadSet xs = foldl (\<lambda>seen x. if x \<in> set seen then seen else seen @ [x]) [] xs"

text \<open>The array \<open>allItems\<close> once the three pattern classes have been searched.\<close>

definition allItems :: "'fs os \<Rightarrow> config \<Rightarrow> 'fs \<Rightarrow> string list option" where
  "allItems os cfg d =
     (let files = (if truthy (filesPattern cfg)
                   then findFiles os d (the (filesPattern cfg)) (maxDepth cfg) else []) in
      case (if truthy (foldersPattern cfg)
            then findDirectories (the (foldersPattern cfg)) (maxDepth cfg) (readdirTree os d)
            else Some []) of
        None \<Rightarrow> None
      | Some dirs \<Rightarrow>
          (case (if truthy (typesPattern cfg)
                 then findItems (the (typesPattern cfg)) (maxDepth cfg) (readdirTree os d)
                 else Some []) of
             None \<Rightarrow> None
           | Some items \<Rightarrow> Some (files @ dirs @ items)))"

text \<open>Lines 375 to 384: deduplicate, drop the excluded paths, sort.\<close>

definition selectItems :: "string list \<Rightarrow> string list \<Rightarrow> string list" where
  "selectItems exclusions candidates =
     sort (filter (\<lambda>item. \<not> shouldExclude item exclusions) (spreadSet candidates))"

definition collectItemsToDelete :: "'fs os \<Rightarrow> config \<Rightarrow> 'fs state \<Rightarrow> 'fs state option" where
  "collectItemsToDelete os cfg st =
     (case allItems os cfg (disk st) of
        None \<Rightarrow> None
      | Some candidates \<Rightarrow>
          Some (st\<lparr>itemsToDelete := selectItems (excludePatterns cfg) candidates\<rparr>))"

section \<open>prompts\<close>

text \<open>
  \<open>answer.trim().toLowerCase()\<close> on the code units of the model: the white space and line
  terminators below \<open>0x100\<close>, and the upper-case letters of ASCII and Latin-1.
\<close>

definition isWhiteSpace :: "char \<Rightarrow> bool" where
  "isWhiteSpace c =
     (c \<in> set [CHR 0x09, CHR 0x0A, CHR 0x0B, CHR 0x0C, CHR 0x0D, CHR 0x20, CHR 0xA0])"

definition trim :: "string \<Rightarrow> string" where
  "trim s = rev (dropWhile isWhiteSpace (rev (dropWhile isWhiteSpace s)))"

definition toLowerCase :: "string \<Rightarrow> string" where
  "toLowerCase s =
     map (\<lambda>c. let n = (of_char c :: nat) in
               if (65 \<le> n \<and> n \<le> 90) \<or> (192 \<le> n \<and> n \<le> 222 \<and> n \<noteq> 215)
               then char_of (n + 32) else c) s"

definition affirmative :: "string \<Rightarrow> bool" where
  "affirmative answer =
     (let response = toLowerCase (trim answer) in response = ''y'' \<or> response = ''yes'')"

text \<open>
  \<open>rl.question(text, callback)\<close>: the question is written and the next line of the
  operator is read. \<open>None\<close> when no line ever comes: the promise stays pending and the
  run does not go on.
\<close>

definition question :: "string \<Rightarrow> 'fs state \<Rightarrow> (string \<times> 'fs state) option" where
  "question text st =
     (case stdin st of
        [] \<Rightarrow> None
      | answer # rest \<Rightarrow> Some (answer, st\<lparr>stdin := rest, out := out st @ [Question text]\<rparr>))"

definition confirmDeletion :: "string \<Rightarrow> bool \<Rightarrow> 'fs state \<Rightarrow> (bool \<times> 'fs state) option" where
  "confirmDeletion item frc st =
     (if frc then Some (True, st)
      else (case question (''Delete '' @ [CHR 0x27] @ item @ [CHR 0x27] @ ''? [y/N]: '') st of
              None \<Rightarrow> None
            | Some (answer, st') \<Rightarrow> Some (affirmative answer, st')))"

definition confirmProceed :: "'fs state \<Rightarrow> (bool \<times> 'fs state) option" where
  "confirmProceed st =
     (case question ''Proceed with deletion? [y/N]: '' st of
        None \<Rightarrow> None
      | Some (answer, st') \<Rightarrow> Some (affirmative answer, st'))"

section \<open>Logger and fileUtils: deletion\<close>

text \<open>
  One call of \<open>logger.log(message, level)\<close> is one \<open>Log\<close> event, whatever its sinks
  (console, log file) and format; the time stamp is left out. The log file is the
  logger's own: \<open>disk\<close> and \<open>calls\<close> stand for the entries the run selects and removes.
\<close>

definition logger_log :: "string \<Rightarrow> level \<Rightarrow> 'fs state \<Rightarrow> 'fs state" where
  "logger_log message lvl st = st\<lparr>out := out st @ [Log lvl message]\<rparr>"

definition isDirectory :: "'fs os \<Rightarrow> 'fs \<Rightarrow> string \<Rightarrow> bool" where
  "isDirectory os d itemPath =
     (case statSync os d itemPath of None \<Rightarrow> False | Some s \<Rightarrow> s = IsDirectory)"

definition isFile :: "'fs os \<Rightarrow> 'fs \<Rightarrow> string \<Rightarrow> bool" where
  "isFile os d itemPath =
     (case statSync os d itemPath of None \<Rightarrow> False | Some s \<Rightarrow> s = IsFile)"

text \<open>
  \<open>deleteItem\<close> of fileUtils. Every removal asked of the file system is appended to
  \<open>calls\<close>; an exception of \<open>statSync\<close>, \<open>rmSync\<close> or \<open>unlinkSync\<close> is caught and gives false.
\<close>

definition fileUtils_deleteItem :: "'fs os \<Rightarrow> string \<Rightarrow> 'fs state \<Rightarrow> bool \<times> 'fs state" where
  "fileUtils_deleteItem os itemPath st =
     (case statSync os (disk st) itemPath of
        None \<Rightarrow> (False, st)
      | Some s \<Rightarrow>
          if s = IsDirectory then
            (case rmSync os (disk st) itemPath of
               (returned, d') \<Rightarrow> (returned, st\<lparr>disk := d', calls := calls st @ [RmSync itemPath]\<rparr>))
          else if s = IsFile then
            (case unlinkSync os (disk st) itemPath of
               (returned, d') \<Rightarrow>
                 (returned, st\<lparr>disk := d', calls := calls st @ [UnlinkSync itemPath]\<rparr>))
          else (False, st))"

section \<open>DeletionEngine: execution\<close>

text \<open>A non-negative integer in a template literal.\<close>

fun decimal :: "nat \<Rightarrow> string" where
  "decimal n = (if n < 10 then [char_of (48 + n)]
                else decimal (n div 10) @ [char_of (48 + n mod 10)])"

declare decimal.simps [simp del]

definition displayPreview :: "config \<Rightarrow> 'fs state \<Rightarrow> 'fs state" where
  "displayPreview cfg st =
     (if length (itemsToDelete st) = 0
      then logger_log ''No items found matching the specified patterns.'' INFO st
      else (let st1 = logger_log (''Preview: Items that will be deleted (''
                                    @ decimal (length (itemsToDelete st)) @ '' items):'') INFO st in
            if outputFormat cfg = Json
            then st1\<lparr>out := out st1 @ [PreviewJson (itemsToDelete st)]\<rparr>
            else st1\<lparr>out := out st1 @ map (\<lambda>item. ConsoleLog (''  - '' @ item)) (itemsToDelete st)\<rparr>))"

text \<open>Lines 432 to 451 of \<open>DeletionEngine.deleteItem\<close>, under the comment "Perform deletion".\<close>

definition performDeletion :: "'fs os \<Rightarrow> string \<Rightarrow> 'fs state \<Rightarrow> 'fs state" where
  "performDeletion os item st =
     (if isDirectory os (disk st) item then
        (case fileUtils_deleteItem os item st of
           (ok, st') \<Rightarrow>
             if ok then (logger_log (''Deleted directory: '' @ item) INFO st')
                          \<lparr>deletedItems := deletedItems st' @ [item]\<rparr>
             else (logger_log (''Failed to delete directory: '' @ item) ERROR st')
                    \<lparr>failedDeletions := failedDeletions st' @ [item]\<rparr>)
      else if isFile os (disk st) item then
        (case fileUtils_deleteItem os item st of
           (ok, st') \<Rightarrow>
             if ok then (logger_log (''Deleted file: '' @ item) INFO st')
                          \<lparr>deletedItems := deletedItems st' @ [item]\<rparr>
             else (logger_log (''Failed to delete file: '' @ item) ERROR st')
                    \<lparr>failedDeletions := failedDeletions st' @ [item]\<rparr>)
      else logger_log (''Item not found or already deleted: '' @ item) WARNING st)"

definition DeletionEngine_deleteItem :: "'fs os \<Rightarrow> config \<Rightarrow> string \<Rightarrow> 'fs state \<Rightarrow> 'fs state option" where
  "DeletionEngine_deleteItem os cfg item st =
     (if dryRun cfg then
        Some ((logger_log (''Would delete: '' @ item) INFO st)
                \<lparr>deletedItems := deletedItems st @ [item]\<rparr>)
      else if interactive cfg then
        (case confirmDeletion item (force cfg) st of
           None \<Rightarrow> None
         | Some (confirmed, st') \<Rightarrow>
             if \<not> confirmed then Some (logger_log (''Skipped: '' @ item) INFO st')
             else Some (performDeletion os item st'))
      else Some (performDeletion os item st))"

text \<open>The loop \<open>for (const item of this.itemsToDelete) await this.deleteItem(item)\<close>.\<close>

fun deleteItems :: "'fs os \<Rightarrow> config \<Rightarrow> string list \<Rightarrow> 'fs state \<Rightarrow> 'fs state option" where
  "deleteItems os cfg [] st = Some st"
| "deleteItems os cfg (item # items) st =
     (case DeletionEngine_deleteItem os cfg item st of
        None \<Rightarrow> None
      | Some st' \<Rightarrow> deleteItems os cfg items st')"

definition processDeletions :: "'fs os \<Rightarrow> config \<Rightarrow> 'fs state \<Rightarrow> 'fs state option" where
  "processDeletions os cfg st =
     (if length (itemsToDelete st) = 0 then Some (logger_log ''No items to delete.'' INFO st)
      else if preview cfg then
        (let st1 = displayPreview cfg st in
         if \<not> dryRun cfg \<and> \<not> force cfg then
           (case confirmProceed st1 of
              None \<Rightarrow> None
            | Some (proceed, st2) \<Rightarrow>
                if \<not> proceed then Some (logger_log ''Deletion cancelled by user.'' INFO st2)
                else deleteItems os cfg (itemsToDelete st2) st2)
         else deleteItems os cfg (itemsToDelete st1) st1)
      else deleteItems os cfg (itemsToDelete st) st)"

record deletionResult =
  totalItems :: nat
  deleted :: nat
  failed :: nat
  summaryDryRun :: bool
  failedItems :: "string list option"

definition getSummary :: "config \<Rightarrow> 'fs state \<Rightarrow> deletionResult" where
  "getSummary cfg st =
     \<lparr>totalItems = length (itemsToDelete st),
      deleted = length (deletedItems st),
      failed = length (failedDeletions st),
      summaryDryRun = dryRun cfg,
      failedItems = (if length (failedDeletions st) > 0 then Some (failedDeletions st) else None)\<rparr>"

definition getExitCode :: "'fs state \<Rightarrow> nat" where
  "getExitCode st = (if length (failedDeletions st) > 0 then 1 else 0)"

definition printSummary :: "config \<Rightarrow> 'fs state \<Rightarrow> 'fs state" where
  "printSummary cfg st =
     (let summary = getSummary cfg st in
      if outputFormat cfg = Json
      then st\<lparr>out := out st @ [SummaryJson (totalItems summary) (deleted summary) (failed summary)
                                   (summaryDryRun summary) (failedItems summary)]\<rparr>
      else
        (let st1 = logger_log ''=== Deletion Summary ==='' INFO st;
             st2 = logger_log (''Total items found: '' @ decimal (totalItems summary)) INFO st1;
             st3 = (if summaryDryRun summary
                    then logger_log (''Items that would be deleted: '' @ decimal (deleted summary))
                           INFO st2
                    else logger_log (''Items successfully deleted: '' @ decimal (deleted summary))
                           INFO st2) in
         if failed summary > 0 \<and> failedItems summary \<noteq> None
         then foldl (\<lambda>s item. logger_log (''  - '' @ item) ERROR s)
                (logger_log (''Failed deletions: '' @ decimal (failed summary)) ERROR st3)
                (the (failedItems summary))
         else st3))"

section \<open>The command line\<close>

text \<open>
  The options as \<open>commander\<close> hands them over: \<open>--depth\<close> has gone through \<open>parseInt\<close>,
  \<open>--format\<close> defaults to \<open>plain\<close>, \<open>--exclude\<close> accumulates, the four switches default to
  false.
\<close>

record options =
  opt_files :: "string option"
  opt_folders :: "string option"
  opt_types :: "string option"
  opt_exclude :: "string list"
  opt_depth :: "number option"
  opt_dryRun :: bool
  opt_interactive :: bool
  opt_preview :: bool
  opt_force :: bool
  opt_log :: "string option"
  opt_format :: string

definition buildConfig :: "options \<Rightarrow> config" where
  "buildConfig opts =
     \<lparr>dryRun = opt_dryRun opts,
      interactive = opt_interactive opts,
      force = opt_force opts,
      preview = opt_preview opts,
      logFile = opt_log opts,
      outputFormat = (if opt_format opts = ''json'' then Json else Plain),
      maxDepth = opt_depth opts,
      filesPattern = opt_files opts,
      foldersPattern = opt_folders opts,
      typesPattern = opt_types opts,
      excludePatterns = opt_exclude opts\<rparr>"

text \<open>\<open>isNaN(maxDepth) || maxDepth < 1\<close>.\<close>

fun notPositive :: "number \<Rightarrow> bool" where
  "notPositive NaN = True"
| "notPositive (Num n) = (n < 1)"

text \<open>
  How a run ends: the process exits with a code, leaving a state behind; or the operator
  never answers a question; or a pattern is outside the modelled fragment.
\<close>

datatype 'fs run = Exit nat "'fs state" | NoAnswer | OutsideModel

definition newEngine :: "'fs \<Rightarrow> string list \<Rightarrow> 'fs state" where
  "newEngine d input =
     \<lparr>itemsToDelete = [], deletedItems = [], failedDeletions = [],
      disk = d, stdin = input, out = [], calls = []\<rparr>"

text \<open>
  \<open>main\<close>. \<open>program.help()\<close> belongs to the \<open>commander\<close> package: \<open>helpExit\<close> is the code
  with which it ends the process, \<open>None\<close> if it returns to the caller. Nothing in the
  engine throws, so the \<open>catch\<close> branches of \<open>main\<close> are never taken.
\<close>

definition main :: "'fs os \<Rightarrow> nat option \<Rightarrow> options \<Rightarrow> 'fs \<Rightarrow> string list \<Rightarrow> 'fs run" where
  "main os helpExit opts d input =
     (let cfg = buildConfig opts; st0 = newEngine d input in
      if \<not> truthy (filesPattern cfg) \<and> \<not> truthy (foldersPattern cfg) \<and> \<not> truthy (typesPattern cfg)
      then Exit (case helpExit of None \<Rightarrow> 1 | Some code \<Rightarrow> code)
             (st0\<lparr>out := [ConsoleError
                ''Error: At least one of --files, --folders, or --types must be specified'']\<rparr>)
      else if outputFormat cfg \<noteq> Plain \<and> outputFormat cfg \<noteq> Json
      then Exit 1 (st0\<lparr>out := [ConsoleError (''Error: --format must be 'plain' or '' @ [CHR 0x27] @ ''json'' @ [CHR 0x27])]\<rparr>)
      else if maxDepth cfg \<noteq> None \<and> notPositive (the (maxDepth cfg))
      then Exit 1 (st0\<lparr>out := [ConsoleError ''Error: --depth must be a positive number'']\<rparr>)
      else
        (case collectItemsToDelete os cfg (logger_log ''Starting deletion operation...'' INFO st0) of
           None \<Rightarrow> OutsideModel
         | Some st1 \<Rightarrow>
             (case processDeletions os cfg st1 of
                None \<Rightarrow> NoAnswer
              | Some st2 \<Rightarrow> Exit (getExitCode st2) (printSummary cfg st2))))"

section \<open>A small file system for the examples\<close>

text \<open>
  A table of paths with the kind of each entry and whether its removal succeeds; removing
  a directory takes what lies below it along. The tree and the result of \<open>glob\<close> are
  given beside it.
\<close>

definition exampleOs :: "node \<Rightarrow> string list \<Rightarrow> (string \<times> stat \<times> bool) list os" where
  "exampleOs tree globbed =
     \<lparr>readdirTree = (\<lambda>d. tree),
      glob = (\<lambda>d pattern depth. Some globbed),
      statSync = (\<lambda>d p. map_option fst (map_of d p)),
      rmSync = (\<lambda>d p. if map_option snd (map_of d p) = Some True
                       then (True, filter (\<lambda>(q, k). q \<noteq> p \<and> \<not> startsWith q (p @ ''/'')) d)
                       else (False, d)),
      unlinkSync = (\<lambda>d p. if map_option snd (map_of d p) = Some True
                           then (True, filter (\<lambda>(q, k). q \<noteq> p) d)
                           else (False, d))\<rparr>"

text \<open>
  The scenario of the specification: \<open>a.tmp\<close>, \<open>b.tmp\<close> and \<open>keep/important.tmp\<close> below
  the working directory, \<open>glob\<close> reporting the two files at the top.
\<close>

definition exampleTree :: node where
  "exampleTree = Directory [(''a.tmp'', NonDirectory), (''b.tmp'', NonDirectory),
                            (''keep'', Directory [(''important.tmp'', NonDirectory)])]"

text \<open>The same directory, listed in another order.\<close>

definition exampleTreeReordered :: node where
  "exampleTreeReordered =
     Directory [(''keep'', Directory [(''important.tmp'', NonDirectory)]),
                (''b.tmp'', NonDirectory), (''a.tmp'', NonDirectory)]"

definition exampleDisk :: "(string \<times> stat \<times> bool) list" where
  "exampleDisk = [(''a.tmp'', IsFile, True), (''b.tmp'', IsFile, True),
                  (''keep'', IsDirectory, True), (''keep/important.tmp'', IsFile, True)]"

definition exampleConfig :: config where
  "exampleConfig =
     \<lparr>dryRun = False, interactive = False, force = False, preview = False, logFile = None,
      outputFormat = Plain, maxDepth = None, filesPattern = Some ''*.tmp'',
      foldersPattern = None, typesPattern = Some ''*.tmp'',
      excludePatterns = [''important'']\<rparr>"

definition exampleState :: "(string \<times> stat \<times> bool) list state" where
  "exampleState = (newEngine exampleDisk [])\<lparr>itemsToDelete := [''a.tmp'', ''b.tmp'']\<rparr>"

definition exampleOptions :: options where
  "exampleOptions =
     \<lparr>opt_files = Some ''*.tmp'', opt_folders = None, opt_types = None, opt_exclude = [],
      opt_depth = None, opt_dryRun = True, opt_interactive = False, opt_preview = False,
      opt_force = False, opt_log = None, opt_format = ''xml''\<rparr>"

definition cacheTree :: node where
  "cacheTree = Directory [(''cache'', Directory []), (''sub'', Directory [(''cache'', Directory [])])]"

section \<open>Depth in the words of the specification\<close>

text \<open>
  The entries below a directory with their depth: the working directory has depth 0, so
  its own entries have depth 1. \<open>entriesOf rel depth dir\<close> lists the relative path and the
  depth of every entry below \<open>dir\<close>, itself at \<open>depth\<close>.
\<close>

fun entriesOf :: "string \<Rightarrow> nat \<Rightarrow> node \<Rightarrow> (string \<times> nat) list"
and entriesIn :: "string \<Rightarrow> nat \<Rightarrow> (string \<times> node) list \<Rightarrow> (string \<times> nat) list"
where
  "entriesOf rel depth (Directory entries) = entriesIn rel depth entries"
| "entriesOf rel depth Unreadable = []"
| "entriesOf rel depth NonDirectory = []"
| "entriesIn rel depth [] = []"
| "entriesIn rel depth ((name, entry) # entries) =
     (relativePath rel name, depth + 1)
       # entriesOf (relativePath rel name) (depth + 1) entry @ entriesIn rel depth entries"

section \<open>The matching rule in the words of the specification\<close>

text \<open>
  An anchored match of the whole name: \<open>*\<close> stands for any run of characters, \<open>?\<close> for
  exactly one character, every other character for itself.
\<close>

fun matches_spec :: "string \<Rightarrow> string \<Rightarrow> bool" where
  "matches_spec [] [] = True"
| "matches_spec (c # cs) [] = False"
| "matches_spec [] (p # ps) = (p = CHR ''*'' \<and> matches_spec [] ps)"
| "matches_spec (c # cs) (p # ps) =
     (if p = CHR ''*'' then matches_spec (c # cs) ps \<or> matches_spec cs (p # ps)
      else if p = CHR ''?'' then matches_spec cs ps
      else p = c \<and> matches_spec cs ps)"

text \<open>The characters, other than the two wildcards, that mean something in a regular expression.\<close>

definition regexSyntax :: "char \<Rightarrow> bool" where
  "regexSyntax c = (c \<in> set [CHR ''^'', CHR ''$'', CHR 0x5C, CHR ''.'', CHR ''+'', CHR ''('', CHR '')'',
                              CHR ''['', CHR '']'', CHR ''{'', CHR ''}'', CHR ''|''])"

text \<open>What \<open>RegExp\<close> compiles the translation of a pattern without such characters to.\<close>

definition pieces :: "string \<Rightarrow> regexp" where
  "pieces pattern = map (\<lambda>p. if p = CHR ''*'' then Rep Dot ZeroOrMore
                             else if p = CHR ''?'' then Rep Dot ExactlyOne
                             else Rep (Lit p) ExactlyOne) pattern"

section \<open>Selection: exclusion, deduplication, order\<close>

lemma startsWith_iff: "startsWith s t \<longleftrightarrow> (\<exists>after. s = t @ after)"
  by (induction s t rule: startsWith.induct) auto

lemma includes_str_iff: "includes_str s t \<longleftrightarrow> (\<exists>before after. s = before @ t @ after)"
proof (induction s)
  case Nil
  then show ?case by simp
next
  case (Cons c cs)
  show ?case
  proof
    assume "includes_str (c # cs) t"
    then consider "startsWith (c # cs) t" | "includes_str cs t" by auto
    then show "\<exists>before after. c # cs = before @ t @ after"
    proof cases
      case 1
      then obtain after where "c # cs = t @ after" by (auto simp: startsWith_iff)
      then have "c # cs = [] @ t @ after" by simp
      then show ?thesis by blast
    next
      case 2
      then obtain before after where "cs = before @ t @ after" using Cons.IH by blast
      then have "c # cs = (c # before) @ t @ after" by simp
      then show ?thesis by blast
    qed
  next
    assume "\<exists>before after. c # cs = before @ t @ after"
    then obtain before after where eq: "c # cs = before @ t @ after" by blast
    show "includes_str (c # cs) t"
    proof (cases before)
      case Nil
      with eq have "startsWith (c # cs) t" by (auto simp: startsWith_iff)
      then show ?thesis by simp
    next
      case (Cons b bs)
      with eq have "cs = bs @ t @ after" by simp
      then have "includes_str cs t" using Cons.IH by blast
      then show ?thesis by simp
    qed
  qed
qed

lemma shouldExclude_iff:
  "shouldExclude p ex \<longleftrightarrow> (\<exists>pattern \<in> set ex. includes_str p pattern \<or> basename p = pattern)"
  by (induction ex) auto

lemma spreadSet_fold:
  "distinct acc \<Longrightarrow>
   distinct (foldl (\<lambda>seen x. if x \<in> set seen then seen else seen @ [x]) acc xs) \<and>
   set (foldl (\<lambda>seen x. if x \<in> set seen then seen else seen @ [x]) acc xs) = set acc \<union> set xs"
  by (induction xs arbitrary: acc) auto

lemma distinct_spreadSet: "distinct (spreadSet xs)"
  using spreadSet_fold [of "[]" xs] by (simp add: spreadSet_def)

lemma set_spreadSet: "set (spreadSet xs) = set xs"
  using spreadSet_fold [of "[]" xs] by (simp add: spreadSet_def)

lemma set_selectItems:
  "set (selectItems ex cands) = {p \<in> set cands. \<not> shouldExclude p ex}"
  by (auto simp: selectItems_def set_spreadSet)

lemma distinct_selectItems: "distinct (selectItems ex cands)"
  by (simp add: selectItems_def distinct_spreadSet)

lemma sorted_selectItems: "sorted (selectItems ex cands)"
  by (simp add: selectItems_def)

text \<open>
  The worklist depends on the set of candidates only: the order in which the directory
  listings and \<open>glob\<close> deliver them, and how often, does not show.
\<close>

lemma selectItems_order_irrelevant:
  "set cands = set cands' \<Longrightarrow> selectItems ex cands = selectItems ex cands'"
  by (rule sorted_distinct_set_unique)
     (simp_all add: sorted_selectItems distinct_selectItems set_selectItems)

lemma count_list_distinct: "distinct xs \<Longrightarrow> x \<in> set xs \<Longrightarrow> count_list xs x = 1"
  by (induction xs) auto

lemma collect_Some:
  "collectItemsToDelete os cfg st = Some st' \<Longrightarrow>
   \<exists>cands. allItems os cfg (disk st) = Some cands \<and>
           st' = st\<lparr>itemsToDelete := selectItems (excludePatterns cfg) cands\<rparr>"
  by (auto simp: collectItemsToDelete_def split: option.splits)

lemma example_allItems:
  "allItems (exampleOs exampleTree [''a.tmp'', ''b.tmp'']) exampleConfig exampleDisk
   = Some [''a.tmp'', ''b.tmp'', ''a.tmp'', ''b.tmp'', ''keep/important.tmp'']"
  by code_simp

lemma example_collect:
  "collectItemsToDelete (exampleOs exampleTree [''a.tmp'', ''b.tmp'']) exampleConfig
     (newEngine exampleDisk []) = Some exampleState"
  by code_simp

text \<open>Exclusion patterns are compared as they are: a \<open>*\<close> in one is no wildcard.\<close>

lemma exclusion_is_not_glob:
  "\<not> shouldExclude ''a.tmp'' [''*.tmp''] \<and> shouldExclude ''keep/a.tmp'' [''keep''] \<and>
   shouldExclude ''src/keeper'' [''keep''] \<and> \<not> shouldExclude ''src/Keep'' [''keep'']"
  by (simp add: basename_def)

text \<open>
  C6. A path is excluded exactly when some exclusion pattern is a literal substring of it
  or equals its basename (no glob matching), and an excluded path is never on the
  worklist that \<open>collectItemsToDelete\<close> builds, whatever the selection patterns matched.
\<close>

theorem exclusion_precedence:
  "shouldExclude path exclusions = isExcluded_spec path exclusions \<and>
   (collectItemsToDelete os cfg st = Some st' \<longrightarrow>
    shouldExclude path (excludePatterns cfg) \<longrightarrow> path \<notin> set (itemsToDelete st'))"
proof
  show "shouldExclude path exclusions = isExcluded_spec path exclusions"
    by (simp add: shouldExclude_iff isExcluded_spec_def includes_str_iff)
next
  show "collectItemsToDelete os cfg st = Some st' \<longrightarrow>
        shouldExclude path (excludePatterns cfg) \<longrightarrow> path \<notin> set (itemsToDelete st')"
  proof (intro impI)
    assume run: "collectItemsToDelete os cfg st = Some st'"
       and ex: "shouldExclude path (excludePatterns cfg)"
    from collect_Some [OF run] obtain cands
      where "st' = st\<lparr>itemsToDelete := selectItems (excludePatterns cfg) cands\<rparr>" by blast
    then have "set (itemsToDelete st') = {p \<in> set cands. \<not> shouldExclude p (excludePatterns cfg)}"
      by (simp add: set_selectItems)
    with ex show "path \<notin> set (itemsToDelete st')" by simp
  qed
qed

theorem exclusion_precedence_witness:
  "collectItemsToDelete (exampleOs exampleTree [''a.tmp'', ''b.tmp'']) exampleConfig
     (newEngine exampleDisk []) = Some exampleState \<and>
   shouldExclude ''keep/important.tmp'' (excludePatterns exampleConfig) \<and>
   isExcluded_spec ''keep/important.tmp'' (excludePatterns exampleConfig) \<and>
   ''keep/important.tmp'' \<notin> set (itemsToDelete exampleState)"
proof -
  have ex: "shouldExclude ''keep/important.tmp'' (excludePatterns exampleConfig)"
    by (simp add: exampleConfig_def)
  show ?thesis
    using example_collect ex
      exclusion_precedence [of "''keep/important.tmp''" "excludePatterns exampleConfig"
        "exampleOs exampleTree [''a.tmp'', ''b.tmp'']" exampleConfig "newEngine exampleDisk []"
        exampleState]
    by simp
qed

text \<open>
  C7. The worklist holds no path twice and is sorted in ascending lexicographic order of
  the path strings; it holds exactly the candidates that are not excluded, so a path that
  two pattern classes deliver is there once.
\<close>

theorem worklist_distinct_sorted:
  "collectItemsToDelete os cfg st = Some st' \<Longrightarrow>
   distinct (itemsToDelete st') \<and> sorted (itemsToDelete st') \<and>
   (\<forall>cands. allItems os cfg (disk st) = Some cands \<longrightarrow>
      (\<forall>p \<in> set cands. \<not> shouldExclude p (excludePatterns cfg) \<longrightarrow>
         count_list (itemsToDelete st') p = 1))"
proof -
  assume run: "collectItemsToDelete os cfg st = Some st'"
  from collect_Some [OF run] obtain cands
    where all: "allItems os cfg (disk st) = Some cands"
      and st': "st' = st\<lparr>itemsToDelete := selectItems (excludePatterns cfg) cands\<rparr>" by blast
  have d: "distinct (itemsToDelete st')" by (simp add: st' distinct_selectItems)
  have s: "sorted (itemsToDelete st')" by (simp add: st' sorted_selectItems)
  have "count_list (itemsToDelete st') p = 1"
    if "p \<in> set cands" "\<not> shouldExclude p (excludePatterns cfg)" for p
  proof -
    from that have "p \<in> set (itemsToDelete st')" by (simp add: st' set_selectItems)
    with d show ?thesis by (rule count_list_distinct)
  qed
  with d s all show ?thesis by simp
qed

theorem worklist_distinct_sorted_witness:
  "collectItemsToDelete (exampleOs exampleTree [''a.tmp'', ''b.tmp'']) exampleConfig
     (newEngine exampleDisk []) = Some exampleState \<and>
   itemsToDelete exampleState = [''a.tmp'', ''b.tmp''] \<and>
   distinct (itemsToDelete exampleState) \<and> sorted (itemsToDelete exampleState) \<and>
   count_list (itemsToDelete exampleState) ''a.tmp'' = 1"
proof -
  have items: "itemsToDelete exampleState = [''a.tmp'', ''b.tmp'']"
    by (simp add: exampleState_def)
  have keep: "\<not> shouldExclude ''a.tmp'' (excludePatterns exampleConfig)"
    by (simp add: exampleConfig_def basename_def)
  have disk: "disk (newEngine exampleDisk []) = exampleDisk"
    by (simp add: newEngine_def)
  show ?thesis
    using items keep example_allItems disk example_collect
      worklist_distinct_sorted [OF example_collect]
    by simp
qed

lemma example_allItems_reordered:
  "allItems (exampleOs exampleTreeReordered [''b.tmp'', ''a.tmp'']) exampleConfig exampleDisk
   = Some [''b.tmp'', ''a.tmp'', ''keep/important.tmp'', ''b.tmp'', ''a.tmp'']"
  by code_simp

text \<open>
  C8. Selecting twice in a row against an unchanged file system gives the same ordered
  sequence. The second run may meet another enumeration \<open>os'\<close> of the same file system:
  the directory listings and \<open>glob\<close> may deliver the candidates in another order, or
  more often. As long as they deliver the same candidates, the second run leaves the
  state of the first as it is, and the worklist is the one computed from either
  enumeration. The first conjunct says so for the lines that build the worklist, whatever
  the traversals returned.
\<close>

theorem select_idempotent:
  "(set cands = set cands' \<longrightarrow>
      selectItems exclusions cands = selectItems exclusions cands') \<and>
   (collectItemsToDelete os cfg st = Some st1 \<longrightarrow>
    allItems os cfg (disk st) = Some found \<longrightarrow>
    allItems os' cfg (disk st1) = Some found' \<longrightarrow>
    set found = set found' \<longrightarrow>
      collectItemsToDelete os' cfg st1 = Some st1 \<and>
      itemsToDelete st1 = selectItems (excludePatterns cfg) found \<and>
      itemsToDelete st1 = selectItems (excludePatterns cfg) found')"
proof
  show "set cands = set cands' \<longrightarrow>
          selectItems exclusions cands = selectItems exclusions cands'"
  proof
    assume "set cands = set cands'"
    then have "set (selectItems exclusions cands) = set (selectItems exclusions cands')"
      by (simp add: set_selectItems)
    then show "selectItems exclusions cands = selectItems exclusions cands'"
      by (intro sorted_distinct_set_unique sorted_selectItems distinct_selectItems)
  qed
next
  show "collectItemsToDelete os cfg st = Some st1 \<longrightarrow>
        allItems os cfg (disk st) = Some found \<longrightarrow>
        allItems os' cfg (disk st1) = Some found' \<longrightarrow>
        set found = set found' \<longrightarrow>
          collectItemsToDelete os' cfg st1 = Some st1 \<and>
          itemsToDelete st1 = selectItems (excludePatterns cfg) found \<and>
          itemsToDelete st1 = selectItems (excludePatterns cfg) found'"
  proof (intro impI)
    assume run: "collectItemsToDelete os cfg st = Some st1"
       and first: "allItems os cfg (disk st) = Some found"
       and second: "allItems os' cfg (disk st1) = Some found'"
       and same: "set found = set found'"
    from run first
    have st1: "st1 = st\<lparr>itemsToDelete := selectItems (excludePatterns cfg) found\<rparr>"
      by (simp add: collectItemsToDelete_def)
    have "set (selectItems (excludePatterns cfg) found)
            = set (selectItems (excludePatterns cfg) found')"
      using same by (simp add: set_selectItems)
    then have eq: "selectItems (excludePatterns cfg) found
                     = selectItems (excludePatterns cfg) found'"
      by (intro sorted_distinct_set_unique sorted_selectItems distinct_selectItems)
    have items: "itemsToDelete st1 = selectItems (excludePatterns cfg) found"
      by (simp add: st1)
    have "collectItemsToDelete os' cfg st1
            = Some (st1\<lparr>itemsToDelete := selectItems (excludePatterns cfg) found'\<rparr>)"
      using second by (simp add: collectItemsToDelete_def)
    also have "st1\<lparr>itemsToDelete := selectItems (excludePatterns cfg) found'\<rparr> = st1"
      using eq by (simp add: st1)
    finally show "collectItemsToDelete os' cfg st1 = Some st1 \<and>
          itemsToDelete st1 = selectItems (excludePatterns cfg) found \<and>
          itemsToDelete st1 = selectItems (excludePatterns cfg) found'"
      using items eq by simp
  qed
qed

theorem select_idempotent_witness:
  "collectItemsToDelete (exampleOs exampleTree [''a.tmp'', ''b.tmp'']) exampleConfig
     (newEngine exampleDisk []) = Some exampleState \<and>
   allItems (exampleOs exampleTree [''a.tmp'', ''b.tmp'']) exampleConfig
     (disk (newEngine exampleDisk []))
     = Some [''a.tmp'', ''b.tmp'', ''a.tmp'', ''b.tmp'', ''keep/important.tmp''] \<and>
   allItems (exampleOs exampleTreeReordered [''b.tmp'', ''a.tmp'']) exampleConfig
     (disk exampleState)
     = Some [''b.tmp'', ''a.tmp'', ''keep/important.tmp'', ''b.tmp'', ''a.tmp''] \<and>
   set [''a.tmp'', ''b.tmp'', ''a.tmp'', ''b.tmp'', ''keep/important.tmp'']
     = set [''b.tmp'', ''a.tmp'', ''keep/important.tmp'', ''b.tmp'', ''a.tmp''] \<and>
   collectItemsToDelete (exampleOs exampleTreeReordered [''b.tmp'', ''a.tmp'']) exampleConfig
     exampleState = Some exampleState \<and>
   itemsToDelete exampleState = [''a.tmp'', ''b.tmp'']"
proof -
  have d1: "disk (newEngine exampleDisk []) = exampleDisk"
    by (simp add: newEngine_def)
  have d2: "disk exampleState = exampleDisk"
    by (simp add: exampleState_def newEngine_def)
  have first: "allItems (exampleOs exampleTree [''a.tmp'', ''b.tmp'']) exampleConfig
                 (disk (newEngine exampleDisk []))
               = Some [''a.tmp'', ''b.tmp'', ''a.tmp'', ''b.tmp'', ''keep/important.tmp'']"
    using example_allItems by (simp add: d1)
  have second: "allItems (exampleOs exampleTreeReordered [''b.tmp'', ''a.tmp'']) exampleConfig
                  (disk exampleState)
                = Some [''b.tmp'', ''a.tmp'', ''keep/important.tmp'', ''b.tmp'', ''a.tmp'']"
    using example_allItems_reordered by (simp add: d2)
  have same: "set [''a.tmp'', ''b.tmp'', ''a.tmp'', ''b.tmp'', ''keep/important.tmp'']
                = set [''b.tmp'', ''a.tmp'', ''keep/important.tmp'', ''b.tmp'', ''a.tmp'']"
    by auto
  have items: "itemsToDelete exampleState = [''a.tmp'', ''b.tmp'']"
    by (simp add: exampleState_def)
  show ?thesis
    using example_collect first second same items
      select_idempotent [of "[]" "[]" "[]"
        "exampleOs exampleTree [''a.tmp'', ''b.tmp'']" exampleConfig "newEngine exampleDisk []"
        exampleState "[''a.tmp'', ''b.tmp'', ''a.tmp'', ''b.tmp'', ''keep/important.tmp'']"
        "exampleOs exampleTreeReordered [''b.tmp'', ''a.tmp'']"
        "[''b.tmp'', ''a.tmp'', ''keep/important.tmp'', ''b.tmp'', ''a.tmp'']"]
    by blast
qed

section \<open>Execution: dry run, preview gate, vanished entries\<close>

lemma deleteItems_dryRun:
  "dryRun cfg \<Longrightarrow>
   deleteItems os cfg items st =
     Some (st\<lparr>deletedItems := deletedItems st @ items,
              out := out st @ map (\<lambda>item. Log INFO (''Would delete: '' @ item)) items\<rparr>)"
  by (induction items arbitrary: st) (simp_all add: DeletionEngine_deleteItem_def logger_log_def)

lemma displayPreview_frame:
  "itemsToDelete (displayPreview cfg st) = itemsToDelete st \<and>
   deletedItems (displayPreview cfg st) = deletedItems st \<and>
   failedDeletions (displayPreview cfg st) = failedDeletions st \<and>
   disk (displayPreview cfg st) = disk st \<and>
   stdin (displayPreview cfg st) = stdin st \<and>
   calls (displayPreview cfg st) = calls st"
  by (simp add: displayPreview_def logger_log_def Let_def)

lemma displayPreview_out:
  "itemsToDelete st \<noteq> [] \<Longrightarrow>
   out (displayPreview cfg st) =
     out st @ Log INFO (''Preview: Items that will be deleted (''
                         @ decimal (length (itemsToDelete st)) @ '' items):'')
       # (if outputFormat cfg = Json then [PreviewJson (itemsToDelete st)]
          else map (\<lambda>item. ConsoleLog (''  - '' @ item)) (itemsToDelete st))"
  by (simp add: displayPreview_def logger_log_def Let_def)

lemma performDeletion_vanished:
  assumes "statSync os (disk st) item \<noteq> Some IsFile"
      and "statSync os (disk st) item \<noteq> Some IsDirectory"
  shows "performDeletion os item st =
           logger_log (''Item not found or already deleted: '' @ item) WARNING st"
  using assms by (simp add: performDeletion_def isDirectory_def isFile_def split: option.splits)

text \<open>
  C2. With \<open>dryRun\<close> set, whatever the other flags, \<open>processDeletions\<close> returns without
  asking anything, requests no removal and leaves the file system as it is; every item of
  the worklist is logged as "Would delete" and recorded, so that the summary of a freshly
  built engine has \<open>deleted = totalItems\<close>.
\<close>

theorem dryRun_mutates_nothing:
  assumes dry: "dryRun cfg" and fresh: "deletedItems st = []"
  shows "\<exists>st'. processDeletions os cfg st = Some st' \<and>
           disk st' = disk st \<and> calls st' = calls st \<and> stdin st' = stdin st \<and>
           itemsToDelete st' = itemsToDelete st \<and>
           deletedItems st' = itemsToDelete st \<and>
           failedDeletions st' = failedDeletions st \<and>
           (\<forall>item \<in> set (itemsToDelete st). Log INFO (''Would delete: '' @ item) \<in> set (out st')) \<and>
           deleted (getSummary cfg st') = totalItems (getSummary cfg st')"
proof (cases "itemsToDelete st = []")
  case True
  then show ?thesis
    using fresh by (simp add: processDeletions_def logger_log_def getSummary_def)
next
  case False
  show ?thesis
  proof (cases "preview cfg")
    case True
    with False dry have "processDeletions os cfg st =
        deleteItems os cfg (itemsToDelete st) (displayPreview cfg st)"
      by (simp add: processDeletions_def Let_def displayPreview_frame)
    then show ?thesis
      using fresh by (simp add: deleteItems_dryRun [OF dry] displayPreview_frame getSummary_def)
  next
    case False
    with \<open>itemsToDelete st \<noteq> []\<close> have "processDeletions os cfg st =
        deleteItems os cfg (itemsToDelete st) st"
      by (simp add: processDeletions_def)
    then show ?thesis
      using fresh by (simp add: deleteItems_dryRun [OF dry] getSummary_def)
  qed
qed

theorem dryRun_mutates_nothing_witness:
  "dryRun (exampleConfig\<lparr>dryRun := True, interactive := True, preview := True\<rparr>) \<and>
   deletedItems exampleState = [] \<and>
   (\<exists>st'. processDeletions (exampleOs exampleTree [''a.tmp'', ''b.tmp''])
            (exampleConfig\<lparr>dryRun := True, interactive := True, preview := True\<rparr>)
            exampleState = Some st' \<and>
          disk st' = exampleDisk \<and> calls st' = [] \<and> stdin st' = [] \<and>
          deletedItems st' = [''a.tmp'', ''b.tmp''] \<and>
          Log INFO ''Would delete: a.tmp'' \<in> set (out st') \<and>
          Log INFO ''Would delete: b.tmp'' \<in> set (out st') \<and>
          deleted (getSummary (exampleConfig\<lparr>dryRun := True, interactive := True,
                                 preview := True\<rparr>) st')
            = totalItems (getSummary (exampleConfig\<lparr>dryRun := True, interactive := True,
                                        preview := True\<rparr>) st'))"
proof -
  have dry: "dryRun (exampleConfig\<lparr>dryRun := True, interactive := True, preview := True\<rparr>)"
    by simp
  have fresh: "deletedItems exampleState = []"
    by (simp add: exampleState_def newEngine_def)
  show ?thesis
    using dry fresh
      dryRun_mutates_nothing [OF dry fresh, of "exampleOs exampleTree [''a.tmp'', ''b.tmp'']"]
    by (auto simp: exampleState_def newEngine_def)
qed

text \<open>
  On an empty worklist \<open>processDeletions\<close> logs one line and returns: no preview, no
  question, whatever the flags.
\<close>

lemma processDeletions_empty:
  "itemsToDelete st = [] \<Longrightarrow>
   processDeletions os cfg st = Some (logger_log ''No items to delete.'' INFO st)"
  by (simp add: processDeletions_def)

text \<open>
  C9, as stated, fails on an empty worklist: \<open>processDeletions\<close> returns at once, shows no
  preview and asks nothing, although \<open>preview\<close> is set and \<open>dryRun\<close> and \<open>force\<close> are not.
\<close>

theorem preview_gate_counterexample:
  "preview (exampleConfig\<lparr>preview := True\<rparr>) \<and>
   \<not> dryRun (exampleConfig\<lparr>preview := True\<rparr>) \<and>
   \<not> force (exampleConfig\<lparr>preview := True\<rparr>) \<and>
   processDeletions (exampleOs exampleTree [''a.tmp'', ''b.tmp''])
     (exampleConfig\<lparr>preview := True\<rparr>) (newEngine exampleDisk [''n''])
   = Some ((newEngine exampleDisk [''n''])\<lparr>out := [Log INFO ''No items to delete.'']\<rparr>)"
  by (simp add: exampleConfig_def processDeletions_def newEngine_def logger_log_def)

text \<open>
  C9, amended. If the worklist is not empty, \<open>preview\<close> is set and neither \<open>dryRun\<close> nor
  \<open>force\<close> is, the whole worklist is shown and one question is asked before any item is
  processed: the items are processed from the state \<open>asked\<close> that has the preview and the
  question behind it. When the operator declines, the run ends there: nothing is
  removed, nothing is recorded as deleted or failed, and the exit code stays what it was
  (0 for a fresh engine).
\<close>

theorem preview_gate:
  assumes items: "itemsToDelete st \<noteq> []" and pre: "preview cfg"
      and live: "\<not> dryRun cfg" and ask: "\<not> force cfg"
      and inp: "stdin st = answer # rest"
  shows "(\<exists>asked.
            out asked = out st
              @ Log INFO (''Preview: Items that will be deleted (''
                           @ decimal (length (itemsToDelete st)) @ '' items):'')
              # (if outputFormat cfg = Json then [PreviewJson (itemsToDelete st)]
                 else map (\<lambda>item. ConsoleLog (''  - '' @ item)) (itemsToDelete st))
              @ [Question ''Proceed with deletion? [y/N]: ''] \<and>
            stdin asked = rest \<and> disk asked = disk st \<and> calls asked = calls st \<and>
            itemsToDelete asked = itemsToDelete st \<and> deletedItems asked = deletedItems st \<and>
            failedDeletions asked = failedDeletions st \<and>
            processDeletions os cfg st =
              (if affirmative answer then deleteItems os cfg (itemsToDelete st) asked
               else Some (logger_log ''Deletion cancelled by user.'' INFO asked))) \<and>
         (\<not> affirmative answer \<longrightarrow>
            (\<exists>st'. processDeletions os cfg st = Some st' \<and>
                   last (out st') = Log INFO ''Deletion cancelled by user.'' \<and>
                   stdin st' = rest \<and> disk st' = disk st \<and> calls st' = calls st \<and>
                   deletedItems st' = deletedItems st \<and>
                   failedDeletions st' = failedDeletions st \<and>
                   getExitCode st' = getExitCode st \<and>
                   (failedDeletions st = [] \<longrightarrow> getExitCode st' = 0)))"
proof -
  define asked where "asked = (displayPreview cfg st)\<lparr>stdin := rest,
      out := out (displayPreview cfg st) @ [Question ''Proceed with deletion? [y/N]: '']\<rparr>"
  have conf: "confirmProceed (displayPreview cfg st) = Some (affirmative answer, asked)"
    using inp by (simp add: confirmProceed_def question_def asked_def displayPreview_frame)
  have run: "processDeletions os cfg st =
               (if affirmative answer then deleteItems os cfg (itemsToDelete st) asked
                else Some (logger_log ''Deletion cancelled by user.'' INFO asked))"
    using items pre live ask conf
    by (simp add: processDeletions_def Let_def asked_def displayPreview_frame)
  have fields: "out asked = out st
              @ Log INFO (''Preview: Items that will be deleted (''
                           @ decimal (length (itemsToDelete st)) @ '' items):'')
              # (if outputFormat cfg = Json then [PreviewJson (itemsToDelete st)]
                 else map (\<lambda>item. ConsoleLog (''  - '' @ item)) (itemsToDelete st))
              @ [Question ''Proceed with deletion? [y/N]: '']"
    "stdin asked = rest" "disk asked = disk st" "calls asked = calls st"
    "itemsToDelete asked = itemsToDelete st" "deletedItems asked = deletedItems st"
    "failedDeletions asked = failedDeletions st"
    by (simp_all add: asked_def displayPreview_frame displayPreview_out [OF items])
  have first: "\<exists>asked.
            out asked = out st
              @ Log INFO (''Preview: Items that will be deleted (''
                           @ decimal (length (itemsToDelete st)) @ '' items):'')
              # (if outputFormat cfg = Json then [PreviewJson (itemsToDelete st)]
                 else map (\<lambda>item. ConsoleLog (''  - '' @ item)) (itemsToDelete st))
              @ [Question ''Proceed with deletion? [y/N]: ''] \<and>
            stdin asked = rest \<and> disk asked = disk st \<and> calls asked = calls st \<and>
            itemsToDelete asked = itemsToDelete st \<and> deletedItems asked = deletedItems st \<and>
            failedDeletions asked = failedDeletions st \<and>
            processDeletions os cfg st =
              (if affirmative answer then deleteItems os cfg (itemsToDelete st) asked
               else Some (logger_log ''Deletion cancelled by user.'' INFO asked))"
    using fields run by blast
  have second: "\<exists>st'. processDeletions os cfg st = Some st' \<and>
                   last (out st') = Log INFO ''Deletion cancelled by user.'' \<and>
                   stdin st' = rest \<and> disk st' = disk st \<and> calls st' = calls st \<and>
                   deletedItems st' = deletedItems st \<and>
                   failedDeletions st' = failedDeletions st \<and>
                   getExitCode st' = getExitCode st \<and>
                   (failedDeletions st = [] \<longrightarrow> getExitCode st' = 0)"
    if "\<not> affirmative answer"
    using that run fields(2-7) by (simp add: logger_log_def getExitCode_def)
  from first second show ?thesis by blast
qed

theorem preview_gate_witness:
  "itemsToDelete (exampleState\<lparr>stdin := [''n'']\<rparr>) \<noteq> [] \<and>
   preview (exampleConfig\<lparr>preview := True\<rparr>) \<and>
   \<not> dryRun (exampleConfig\<lparr>preview := True\<rparr>) \<and>
   \<not> force (exampleConfig\<lparr>preview := True\<rparr>) \<and>
   stdin (exampleState\<lparr>stdin := [''n'']\<rparr>) = [''n''] \<and> \<not> affirmative ''n'' \<and>
   (\<exists>st'. processDeletions (exampleOs exampleTree [''a.tmp'', ''b.tmp''])
            (exampleConfig\<lparr>preview := True\<rparr>) (exampleState\<lparr>stdin := [''n'']\<rparr>) = Some st' \<and>
          last (out st') = Log INFO ''Deletion cancelled by user.'' \<and>
          stdin st' = [] \<and> disk st' = exampleDisk \<and> calls st' = [] \<and>
          deletedItems st' = [] \<and> failedDeletions st' = [] \<and> getExitCode st' = 0)"
proof -
  have items: "itemsToDelete (exampleState\<lparr>stdin := [''n'']\<rparr>) \<noteq> []"
    by (simp add: exampleState_def)
  have pre: "preview (exampleConfig\<lparr>preview := True\<rparr>)" by simp
  have live: "\<not> dryRun (exampleConfig\<lparr>preview := True\<rparr>)" by (simp add: exampleConfig_def)
  have ask: "\<not> force (exampleConfig\<lparr>preview := True\<rparr>)" by (simp add: exampleConfig_def)
  have inp: "stdin (exampleState\<lparr>stdin := [''n'']\<rparr>) = ''n'' # []" by simp
  have no: "\<not> affirmative ''n''" by code_simp
  show ?thesis
    using items pre live ask no
      preview_gate [OF items pre live ask inp, of "exampleOs exampleTree [''a.tmp'', ''b.tmp'']"]
    by (auto simp: exampleState_def newEngine_def)
qed

text \<open>
  C10. When the removal step is reached for an item (no dry run, and the operator did not
  decline it) and the path then resolves to neither a regular file nor a directory (it
  is gone, or it is a FIFO, a socket or a broken link), the engine logs the WARNING "Item
  not found or already deleted", asks the file system for no removal, adds the item to
  neither list, leaves the exit code as it was, and the loop goes on with the next item.
\<close>

theorem vanished_item_warning:
  assumes live: "\<not> dryRun cfg"
      and go: "interactive cfg \<longrightarrow>
               force cfg \<or> (\<exists>answer rest. stdin st = answer # rest \<and> affirmative answer)"
      and nofile: "statSync os (disk st) item \<noteq> Some IsFile"
      and nodir: "statSync os (disk st) item \<noteq> Some IsDirectory"
  shows "\<exists>st'. DeletionEngine_deleteItem os cfg item st = Some st' \<and>
           last (out st') = Log WARNING (''Item not found or already deleted: '' @ item) \<and>
           calls st' = calls st \<and> disk st' = disk st \<and>
           deletedItems st' = deletedItems st \<and> failedDeletions st' = failedDeletions st \<and>
           getExitCode st' = getExitCode st \<and>
           deleteItems os cfg (item # items) st = deleteItems os cfg items st'"
proof (cases "interactive cfg \<and> \<not> force cfg")
  case True
  with go obtain answer rest where inp: "stdin st = answer # rest" and yes: "affirmative answer"
    by blast
  define st1 where "st1 = st\<lparr>stdin := rest,
      out := out st @ [Question (''Delete '' @ [CHR 0x27] @ item @ [CHR 0x27] @ ''? [y/N]: '')]\<rparr>"
  have conf: "confirmDeletion item (force cfg) st = Some (True, st1)"
    using True inp yes by (simp add: confirmDeletion_def question_def st1_def)
  have d1: "disk st1 = disk st" by (simp add: st1_def)
  have "performDeletion os item st1 =
          logger_log (''Item not found or already deleted: '' @ item) WARNING st1"
    using nofile nodir by (intro performDeletion_vanished) (simp_all add: d1)
  with conf live True have
    "DeletionEngine_deleteItem os cfg item st =
       Some (logger_log (''Item not found or already deleted: '' @ item) WARNING st1)"
    by (simp add: DeletionEngine_deleteItem_def)
  then show ?thesis
    by (simp add: logger_log_def st1_def getExitCode_def)
next
  case False
  have "DeletionEngine_deleteItem os cfg item st = Some (performDeletion os item st)"
    using False live by (auto simp: DeletionEngine_deleteItem_def confirmDeletion_def)
  then show ?thesis
    by (simp add: performDeletion_vanished [OF nofile nodir] logger_log_def getExitCode_def)
qed

theorem vanished_item_warning_witness:
  "\<not> dryRun (exampleConfig\<lparr>interactive := True\<rparr>) \<and>
   stdin (exampleState\<lparr>stdin := [''y'']\<rparr>) = [''y''] \<and> affirmative ''y'' \<and>
   statSync (exampleOs exampleTree [''a.tmp'', ''b.tmp''])
     (disk (exampleState\<lparr>stdin := [''y'']\<rparr>)) ''gone.tmp'' = None \<and>
   (\<exists>st'. DeletionEngine_deleteItem (exampleOs exampleTree [''a.tmp'', ''b.tmp''])
            (exampleConfig\<lparr>interactive := True\<rparr>) ''gone.tmp''
            (exampleState\<lparr>stdin := [''y'']\<rparr>) = Some st' \<and>
          last (out st') = Log WARNING ''Item not found or already deleted: gone.tmp'' \<and>
          calls st' = [] \<and> disk st' = exampleDisk \<and>
          deletedItems st' = [] \<and> failedDeletions st' = [] \<and> getExitCode st' = 0)"
proof -
  have live: "\<not> dryRun (exampleConfig\<lparr>interactive := True\<rparr>)"
    by (simp add: exampleConfig_def)
  have yes: "affirmative ''y''" by code_simp
  have go: "interactive (exampleConfig\<lparr>interactive := True\<rparr>) \<longrightarrow>
            force (exampleConfig\<lparr>interactive := True\<rparr>) \<or>
            (\<exists>answer rest. stdin (exampleState\<lparr>stdin := [''y'']\<rparr>) = answer # rest \<and>
                           affirmative answer)"
    using yes by simp
  have gone: "statSync (exampleOs exampleTree [''a.tmp'', ''b.tmp''])
                (disk (exampleState\<lparr>stdin := [''y'']\<rparr>)) ''gone.tmp'' = None"
    by (simp add: exampleOs_def exampleState_def newEngine_def exampleDisk_def)
  have nofile: "statSync (exampleOs exampleTree [''a.tmp'', ''b.tmp''])
                  (disk (exampleState\<lparr>stdin := [''y'']\<rparr>)) ''gone.tmp'' \<noteq> Some IsFile"
    and nodir: "statSync (exampleOs exampleTree [''a.tmp'', ''b.tmp''])
                  (disk (exampleState\<lparr>stdin := [''y'']\<rparr>)) ''gone.tmp'' \<noteq> Some IsDirectory"
    using gone by simp_all
  show ?thesis
    using live yes gone
      vanished_item_warning [OF live go nofile nodir]
    by (auto simp: exampleState_def newEngine_def getExitCode_def)
qed

section \<open>The traversals and the depth bound\<close>

lemma findDirectories_depth_aux:
  "(findDirectories_searchDir pattern md rel node k = Some ps \<longrightarrow> md = Some (Num m) \<longrightarrow>
      (\<forall>p \<in> set ps. \<exists>d. (p, d) \<in> set (entriesOf rel k node) \<and> int d \<le> m + 1))"
  "(findDirectories_entries pattern md rel entries k = Some ps \<longrightarrow> md = Some (Num m) \<longrightarrow>
      int k \<le> m \<longrightarrow>
      (\<forall>p \<in> set ps. \<exists>d. (p, d) \<in> set (entriesIn rel k entries) \<and> int d \<le> m + 1))"
proof (induction pattern md rel node k and pattern md rel entries k arbitrary: ps and ps
       rule: findDirectories_searchDir_findDirectories_entries.induct)
  case (1 pattern maxDepth rel entries currentDepth)
  then show ?case by (auto split: if_splits)
next
  case (2 pattern maxDepth rel currentDepth)
  then show ?case by simp
next
  case (3 pattern maxDepth rel currentDepth)
  then show ?case by simp
next
  case (4 pattern maxDepth rel currentDepth)
  then show ?case by simp
next
  case (5 pattern maxDepth rel name entry entries currentDepth)
  show ?case
  proof (intro impI ballI)
    fix p
    assume run: "findDirectories_entries pattern maxDepth rel ((name, entry) # entries) currentDepth = Some ps"
       and md: "maxDepth = Some (Num m)" and k: "int currentDepth \<le> m" and p: "p \<in> set ps"
    show "\<exists>d. (p, d) \<in> set (entriesIn rel currentDepth ((name, entry) # entries)) \<and> int d \<le> m + 1"
    proof (cases "Dirent_isDirectory entry")
      case False
      with run have "findDirectories_entries pattern maxDepth rel entries currentDepth = Some ps"
        by simp
      with 5(3) [OF False] md k p
      obtain d where "(p, d) \<in> set (entriesIn rel currentDepth entries)" "int d \<le> m + 1"
        by blast
      then show ?thesis by auto
    next
      case True
      show ?thesis
      proof (cases "matchesPattern name pattern")
        case None
        with run True show ?thesis by simp
      next
        case (Some r)
        show ?thesis
        proof (cases r)
          case (Inl e)
          with run True Some p show ?thesis by simp
        next
          case (Inr matches)
          from run True Some Inr obtain below others
            where b: "findDirectories_searchDir pattern maxDepth (relativePath rel name) entry
                        (currentDepth + 1) = Some below"
              and o: "findDirectories_entries pattern maxDepth rel entries currentDepth = Some others"
              and ps: "ps = (if matches then [relativePath rel name] else []) @ below @ others"
            by (auto split: option.splits)
          from p ps consider "p = relativePath rel name" | "p \<in> set below" | "p \<in> set others"
            by (auto split: if_splits)
          then show ?thesis
          proof cases
            case 1
            with k show ?thesis by auto
          next
            case 2
            with 5(1) [OF True Some Inr] b md
            obtain d where "(p, d) \<in> set (entriesOf (relativePath rel name) (currentDepth + 1) entry)"
              "int d \<le> m + 1" by blast
            then show ?thesis by auto
          next
            case 3
            with 5(2) [OF True Some Inr b] o md k
            obtain d where "(p, d) \<in> set (entriesIn rel currentDepth entries)" "int d \<le> m + 1"
              by blast
            then show ?thesis by auto
          qed
        qed
      qed
    qed
  qed
qed

lemma findItems_depth_aux:
  "(findItems_searchDir pattern md rel node k = Some ps \<longrightarrow> md = Some (Num m) \<longrightarrow>
      (\<forall>p \<in> set ps. \<exists>d. (p, d) \<in> set (entriesOf rel k node) \<and> int d \<le> m + 1))"
  "(findItems_entries pattern md rel entries k = Some ps \<longrightarrow> md = Some (Num m) \<longrightarrow>
      int k \<le> m \<longrightarrow>
      (\<forall>p \<in> set ps. \<exists>d. (p, d) \<in> set (entriesIn rel k entries) \<and> int d \<le> m + 1))"
proof (induction pattern md rel node k and pattern md rel entries k arbitrary: ps and ps
       rule: findItems_searchDir_findItems_entries.induct)
  case (1 pattern maxDepth rel entries currentDepth)
  then show ?case by (auto split: if_splits)
next
  case (2 pattern maxDepth rel currentDepth)
  then show ?case by simp
next
  case (3 pattern maxDepth rel currentDepth)
  then show ?case by simp
next
  case (4 pattern maxDepth rel currentDepth)
  then show ?case by simp
next
  case (5 pattern maxDepth rel name entry entries currentDepth)
  show ?case
  proof (intro impI ballI)
    fix p
    assume run: "findItems_entries pattern maxDepth rel ((name, entry) # entries) currentDepth = Some ps"
       and md: "maxDepth = Some (Num m)" and k: "int currentDepth \<le> m" and p: "p \<in> set ps"
    show "\<exists>d. (p, d) \<in> set (entriesIn rel currentDepth ((name, entry) # entries)) \<and> int d \<le> m + 1"
    proof (cases "matchesPattern name pattern")
      case None
      with run show ?thesis by simp
    next
      case (Some r)
      show ?thesis
      proof (cases r)
        case (Inl e)
        with run Some p show ?thesis by simp
      next
        case (Inr matches)
        from run Some Inr obtain below others
          where b: "(if Dirent_isDirectory entry
                     then findItems_searchDir pattern maxDepth (relativePath rel name) entry
                            (currentDepth + 1)
                     else Some []) = Some below"
            and o: "findItems_entries pattern maxDepth rel entries currentDepth = Some others"
            and ps: "ps = (if matches then [relativePath rel name] else []) @ below @ others"
          by (auto split: option.splits)
        from p ps consider "p = relativePath rel name" | "p \<in> set below" | "p \<in> set others"
          by (auto split: if_splits)
        then show ?thesis
        proof cases
          case 1
          with k show ?thesis by auto
        next
          case 2
          with b have dir: "Dirent_isDirectory entry"
            and b': "findItems_searchDir pattern maxDepth (relativePath rel name) entry
                       (currentDepth + 1) = Some below"
            by (auto split: if_splits)
          from 5(1) [OF Some Inr dir] b' md 2
          obtain d where "(p, d) \<in> set (entriesOf (relativePath rel name) (currentDepth + 1) entry)"
            "int d \<le> m + 1" by blast
          then show ?thesis by auto
        next
          case 3
          with 5(2) [OF Some Inr b] o md k
          obtain d where "(p, d) \<in> set (entriesIn rel currentDepth entries)" "int d \<le> m + 1"
            by blast
          then show ?thesis by auto
        qed
      qed
    qed
  qed
qed

text \<open>
  What the two traversals do guarantee: whatever they return lies at depth
  \<open>maxDepth + 1\<close> at most.
\<close>

lemma findDirectories_depth_bound:
  "findDirectories pattern (Some (Num m)) cwd = Some ps \<Longrightarrow> p \<in> set ps \<Longrightarrow>
   \<exists>d. (p, d) \<in> set (entriesOf [] 0 cwd) \<and> int d \<le> m + 1"
  using findDirectories_depth_aux(1) [of pattern "Some (Num m)" "[]" cwd 0 ps m]
  by (simp add: findDirectories_def)

lemma findItems_depth_bound:
  "findItems pattern (Some (Num m)) cwd = Some ps \<Longrightarrow> p \<in> set ps \<Longrightarrow>
   \<exists>d. (p, d) \<in> set (entriesOf [] 0 cwd) \<and> int d \<le> m + 1"
  using findItems_depth_aux(1) [of pattern "Some (Num m)" "[]" cwd 0 ps m]
  by (simp add: findItems_def)

section \<open>matchesPattern on patterns without regular-expression syntax\<close>

lemma translate_Cons:
  "replaceAll (CHR ''?'') ''.'' (replaceAll (CHR ''*'') ''.*'' (p # ps)) =
     (if p = CHR ''*'' then ''.*'' else if p = CHR ''?'' then ''.'' else [p])
     @ replaceAll (CHR ''?'') ''.'' (replaceAll (CHR ''*'') ''.*'' ps)"
  by (simp add: replaceAll_def)

lemma translate_head:
  assumes "\<forall>c \<in> set ps. \<not> regexSyntax c"
      and "replaceAll (CHR ''?'') ''.'' (replaceAll (CHR ''*'') ''.*'' ps) @ ''$'' = q # r"
  shows "q \<noteq> CHR ''*'' \<and> q \<noteq> CHR ''+''"
proof (cases ps)
  case Nil
  with assms(2) show ?thesis by (auto simp: replaceAll_def)
next
  case (Cons p ps')
  with assms(1) have "\<not> regexSyntax p" by simp
  then have "p \<noteq> CHR ''+''" by (auto simp: regexSyntax_def)
  with assms(2) Cons show ?thesis
    by (auto simp: translate_Cons split: if_splits)
qed

lemma RegExp_translate:
  "\<forall>c \<in> set pattern. \<not> regexSyntax c \<Longrightarrow>
   RegExp (replaceAll (CHR ''?'') ''.'' (replaceAll (CHR ''*'') ''.*'' pattern) @ ''$'')
     = Some (Inr (pieces pattern @ [Eol]))"
proof (induction pattern)
  case Nil
  then show ?case by (simp add: replaceAll_def pieces_def emit_def)
next
  case (Cons p ps)
  let ?rest = "replaceAll (CHR ''?'') ''.'' (replaceAll (CHR ''*'') ''.*'' ps) @ ''$''"
  from Cons.prems have inert: "\<forall>c \<in> set ps. \<not> regexSyntax c" and p: "\<not> regexSyntax p"
    by simp_all
  have IH: "RegExp ?rest = Some (Inr (pieces ps @ [Eol]))" using Cons.IH inert by blast
  obtain q r where rest: "?rest = q # r" by (cases ?rest) auto
  have q: "q \<noteq> CHR ''*''" "q \<noteq> CHR ''+''" using translate_head [OF inert rest] by simp_all
  show ?case
  proof (cases "p = CHR ''*''")
    case True
    then show ?thesis using IH by (simp add: translate_Cons pieces_def emit_def outsideFragment_def)
  next
    case False
    note star = this
    show ?thesis
    proof (cases "p = CHR ''?''")
      case True
      have "RegExp (CHR ''.'' # ?rest) = emit (Rep Dot ExactlyOne) (RegExp ?rest)"
        using q by (simp add: rest outsideFragment_def)
      then show ?thesis using True IH by (simp add: translate_Cons pieces_def emit_def)
    next
      case False
      have "RegExp (p # ?rest) = emit (Rep (Lit p) ExactlyOne) (RegExp ?rest)"
        using q p star False by (simp add: rest outsideFragment_def regexSyntax_def)
      then show ?thesis using False star IH by (simp add: translate_Cons pieces_def emit_def)
    qed
  qed
qed

lemma testFrom_Bol: "testFrom (Bol # ps) False s = False"
  by (induction s) auto

lemma test_Bol: "test (Bol # ps) name = matchHere ps True name"
  by (cases name) (simp_all add: test_def testFrom_Bol)

lemma matchHere_pieces:
  "\<forall>c \<in> set name. \<not> lineTerminator c \<Longrightarrow>
   matchHere (pieces pattern @ [Eol]) atStart name = matches_spec name pattern"
proof (induction name pattern arbitrary: atStart rule: matches_spec.induct)
  case 1
  then show ?case by (simp add: pieces_def)
next
  case (2 c cs)
  then show ?case by (simp add: pieces_def)
next
  case (3 p ps)
  then show ?case by (simp add: pieces_def)
next
  case (4 c cs p ps)
  then show ?case by (auto simp: pieces_def)
qed

text \<open>
  On a pattern made of \<open>*\<close>, \<open>?\<close> and characters without a meaning in regular expressions,
  and a name without line terminators, \<open>matchesPattern\<close> returns and is the anchored match
  of the specification.
\<close>

lemma matchesPattern_glob:
  assumes "\<forall>c \<in> set pattern. \<not> regexSyntax c" and "\<forall>c \<in> set name. \<not> lineTerminator c"
  shows "matchesPattern name pattern = Some (Inr (matches_spec name pattern))"
proof -
  have "RegExp (''^'' @ replaceAll (CHR ''?'') ''.'' (replaceAll (CHR ''*'') ''.*'' pattern) @ ''$'')
          = Some (Inr (Bol # pieces pattern @ [Eol]))"
    using RegExp_translate [OF assms(1)] by (simp add: emit_def)
  then show ?thesis
    using assms(2) by (simp add: matchesPattern_def test_Bol matchHere_pieces)
qed

section \<open>Where the code departs from the specification\<close>

text \<open>
  C1. With \<open>maxDepth = 1\<close> and the directories \<open>cache\<close> and \<open>sub/cache\<close> below the working
  directory (the working directory at depth 0, \<open>cache\<close> at depth 1, \<open>sub/cache\<close> at depth
  2), \<open>findDirectories\<close> and \<open>findItems\<close> both return \<open>sub/cache\<close>: \<open>searchDir\<close> compares
  the depth of the directory it lists, not that of the entries, with \<open>maxDepth\<close>.
\<close>

theorem depth_bound_exceeded:
  "entriesOf [] 0 cacheTree = [(''cache'', 1), (''sub'', 1), (''sub/cache'', 2)] \<and>
   findDirectories ''cache'' (Some (Num 1)) cacheTree = Some [''cache'', ''sub/cache''] \<and>
   findItems ''cache'' (Some (Num 1)) cacheTree = Some [''cache'', ''sub/cache'']"
  by code_simp

text \<open>
  C3. An unrecognised value of \<open>--format\<close> is not rejected: \<open>buildConfig\<close> has already
  turned it into \<open>plain\<close> when the check of the output format runs, so the run goes on
  to the traversal and exits with code 0.
\<close>

theorem unknown_format_accepted:
  "opt_format exampleOptions = ''xml'' \<and>
   main (exampleOs exampleTree [''a.tmp'', ''b.tmp'']) (Some 0) exampleOptions exampleDisk []
   = Exit 0
       \<lparr>itemsToDelete = [''a.tmp'', ''b.tmp''], deletedItems = [''a.tmp'', ''b.tmp''],
        failedDeletions = [], disk = exampleDisk, stdin = [],
        out = [Log INFO ''Starting deletion operation...'',
               Log INFO ''Would delete: a.tmp'', Log INFO ''Would delete: b.tmp'',
               Log INFO ''=== Deletion Summary ==='',
               Log INFO ''Total items found: 2'',
               Log INFO ''Items that would be deleted: 2''],
        calls = []\<rparr>"
  by code_simp

text \<open>
  C4. A character of the pattern other than \<open>*\<close> and \<open>?\<close> does not always match itself
  only: the dot goes into the regular expression unescaped and matches any character. The
  pattern \<open>v1.0\<close>, which has no wildcard, matches the name \<open>v1x0\<close>, and \<open>*.tmp\<close> matches
  \<open>mytmp\<close>.
\<close>

theorem dot_matches_any_character:
  "matchesPattern ''v1x0'' ''v1.0'' = Some (Inr True) \<and>
   matchesPattern ''mytmp'' ''*.tmp'' = Some (Inr True)"
  by code_simp

text \<open>
  C5. \<open>matchesPattern\<close> does not return a boolean for every pattern: for \<open>c++\<close> the
  regular expression \<open>^c++$\<close> has a quantifier with nothing to repeat and the constructor
  throws a \<open>SyntaxError\<close>. In \<open>findDirectories\<close> the exception ends the search silently.
\<close>

theorem pattern_raises_SyntaxError:
  "matchesPattern ''c++'' ''c++'' = Some (Inl SyntaxError) \<and>
   findDirectories ''c++'' None (Directory [(''c++'', Directory [])]) = Some []"
  by code_simp

section \<open>The command line: what is rejected, and the exit code\<close>

lemma getExitCode_iff:
  "(getExitCode st = 1 \<longleftrightarrow> failedDeletions st \<noteq> []) \<and>
   (getExitCode st = 0 \<longleftrightarrow> failedDeletions st = [])"
  by (simp add: getExitCode_def)

text \<open>Every value of \<open>--format\<close> other than \<open>json\<close> runs as \<open>plain\<close> does.\<close>

lemma main_format_coerced:
  "opt_format opts \<noteq> ''json'' \<Longrightarrow>
   main os helpExit opts d input = main os helpExit (opts\<lparr>opt_format := ''plain''\<rparr>) d input"
  by (simp add: main_def buildConfig_def)

lemma main_rejects_missing_pattern:
  "\<not> truthy (opt_files opts) \<Longrightarrow> \<not> truthy (opt_folders opts) \<Longrightarrow> \<not> truthy (opt_types opts) \<Longrightarrow>
   main os helpExit opts d input =
     Exit (case helpExit of None \<Rightarrow> 1 | Some code \<Rightarrow> code)
       ((newEngine d input)\<lparr>out := [ConsoleError
          ''Error: At least one of --files, --folders, or --types must be specified'']\<rparr>)"
  by (simp add: main_def buildConfig_def Let_def)

lemma main_rejects_depth:
  "truthy (opt_files opts) \<or> truthy (opt_folders opts) \<or> truthy (opt_types opts) \<Longrightarrow>
   opt_depth opts = Some n \<Longrightarrow> notPositive n \<Longrightarrow>
   main os helpExit opts d input =
     Exit 1 ((newEngine d input)\<lparr>out := [ConsoleError
               ''Error: --depth must be a positive number'']\<rparr>)"
  by (auto simp: main_def buildConfig_def Let_def)

lemma failedDeletions_logger_log:
  "failedDeletions (logger_log message lvl st) = failedDeletions st"
  by (simp add: logger_log_def)

lemma failedDeletions_logs:
  "failedDeletions (foldl (\<lambda>s item. logger_log (f item) lvl s) st items) = failedDeletions st"
  by (induction items arbitrary: st) (simp_all add: failedDeletions_logger_log)

lemma failedDeletions_printSummary:
  "failedDeletions (printSummary cfg st) = failedDeletions st"
  by (simp add: printSummary_def Let_def failedDeletions_logs failedDeletions_logger_log)

lemma buildConfig_fields:
  "filesPattern (buildConfig opts) = opt_files opts"
  "foldersPattern (buildConfig opts) = opt_folders opts"
  "typesPattern (buildConfig opts) = opt_types opts"
  "maxDepth (buildConfig opts) = opt_depth opts"
  "outputFormat (buildConfig opts) = Plain \<or> outputFormat (buildConfig opts) = Json"
  by (simp_all add: buildConfig_def)

lemma main_runs:
  assumes "truthy (opt_files opts) \<or> truthy (opt_folders opts) \<or> truthy (opt_types opts)"
      and "opt_depth opts = None \<or> (\<exists>n. opt_depth opts = Some n \<and> \<not> notPositive n)"
  shows "main os helpExit opts d input =
           (case collectItemsToDelete os (buildConfig opts)
                   (logger_log ''Starting deletion operation...'' INFO (newEngine d input)) of
              None \<Rightarrow> OutsideModel
            | Some st1 \<Rightarrow>
                (case processDeletions os (buildConfig opts) st1 of
                   None \<Rightarrow> NoAnswer
                 | Some st2 \<Rightarrow> Exit (getExitCode st2) (printSummary (buildConfig opts) st2)))"
proof -
  have fmt: "\<not> (outputFormat (buildConfig opts) \<noteq> Plain \<and> outputFormat (buildConfig opts) \<noteq> Json)"
    using buildConfig_fields(5) [of opts] by blast
  have depth: "\<not> (maxDepth (buildConfig opts) \<noteq> None \<and> notPositive (the (maxDepth (buildConfig opts))))"
    using assms(2) by (auto simp: buildConfig_fields)
  have pat: "\<not> (\<not> truthy (filesPattern (buildConfig opts)) \<and>
                \<not> truthy (foldersPattern (buildConfig opts)) \<and>
                \<not> truthy (typesPattern (buildConfig opts)))"
    using assms(1) by (simp add: buildConfig_fields)
  show ?thesis
    unfolding main_def Let_def
    by (simp only: if_not_P [OF pat] if_not_P [OF fmt] if_not_P [OF depth])
qed

text \<open>A run that gets past the checks exits with 1 exactly when a removal failed.\<close>

lemma main_exit_code:
  assumes "truthy (opt_files opts) \<or> truthy (opt_folders opts) \<or> truthy (opt_types opts)"
      and "opt_depth opts = None \<or> (\<exists>n. opt_depth opts = Some n \<and> \<not> notPositive n)"
      and "main os helpExit opts d input = Exit code st"
  shows "(code = 1 \<longleftrightarrow> failedDeletions st \<noteq> []) \<and> (code = 0 \<longleftrightarrow> failedDeletions st = [])"
proof -
  from assms(3) obtain st2 where "code = getExitCode st2"
      and "st = printSummary (buildConfig opts) st2"
    unfolding main_runs [OF assms(1,2)] by (auto split: option.splits)
  then show ?thesis
    by (simp add: getExitCode_def failedDeletions_printSummary)
qed

text \<open>An item the operator declines is skipped: nothing is removed and nothing fails.\<close>

lemma declined_item_skipped:
  assumes "\<not> dryRun cfg" and "interactive cfg" and "\<not> force cfg"
      and "stdin st = answer # rest" and "\<not> affirmative answer"
  shows "\<exists>st'. DeletionEngine_deleteItem os cfg item st = Some st' \<and>
           last (out st') = Log INFO (''Skipped: '' @ item) \<and>
           disk st' = disk st \<and> calls st' = calls st \<and>
           deletedItems st' = deletedItems st \<and> failedDeletions st' = failedDeletions st"
  using assms
  by (simp add: DeletionEngine_deleteItem_def confirmDeletion_def question_def logger_log_def)

end
